theory Spec2Isabelle
  imports Main "HOL-Library.Word"
begin

section \<open>Configuration parsing (env.py)\<close>

text \<open>
  A Python \<open>str\<close> is modelled as a \<open>string\<close>: a list of characters whose codes are the
  code points \<open>0 .. 255\<close> (ASCII and Latin-1). On these code points \<open>str.lower()\<close> maps
  \<open>A .. Z\<close> to \<open>a .. z\<close>, and the Latin-1 capitals \<open>192 .. 222\<close> (without the
  multiplication sign \<open>215\<close>) to the code point 32 above; every other character is kept.
\<close>

type_synonym pystr = string

definition lower_char :: "char \<Rightarrow> char" where
  "lower_char c =
     (let n = (of_char c :: nat)
      in if (65 \<le> n \<and> n \<le> 90) \<or> (192 \<le> n \<and> n \<le> 222 \<and> n \<noteq> 215)
         then char_of (n + 32) else c)"

definition lower :: "pystr \<Rightarrow> pystr" where
  "lower s = map lower_char s"

text \<open>\<^verbatim>\<open>def string_to_bool(s): return s.lower() in ["true", "yes", "1", "y"]\<close>\<close>

definition string_to_bool :: "pystr \<Rightarrow> bool" where
  "string_to_bool s = (lower s \<in> set [''true'', ''yes'', ''1'', ''y''])"


section \<open>Python values, exceptions and the outside world\<close>

text \<open>
  \<open>bytes\<close> objects are lists of octets. The values that \<open>json.loads\<close> can hand back are
  the type \<open>pyval\<close>; a \<open>dict\<close> is an association list in insertion order, read with
  \<open>map_of\<close>. JSON numbers with a fraction or an exponent (Python floats) are left out: the
  only thing the code below could observe of them is whether they are zero, as for
  \<open>PInt\<close>.
\<close>

type_synonym bytes = "8 word list"

datatype pyval =
    PNone
  | PBool bool
  | PInt int
  | PStr pystr
  | PList "pyval list"
  | PDict "(pystr \<times> pyval) list"

text \<open>The exceptions that can arise here; all are subclasses of \<open>Exception\<close>.\<close>

datatype exn =
    OSError
  | TypeError
  | ValueError
  | InvalidToken
  | UnicodeError
  | JSONDecodeError
  | AttributeError

text \<open>
  The cryptography and serialisation libraries are not part of the repository. They are
  parameters of the model:
  \<^item> \<open>fernet_generate_key\<close> is \<open>Fernet.generate_key()\<close>, as a function of the random
    bytes it draws;
  \<^item> \<open>fernet_valid_key\<close> says which keys the constructor \<open>Fernet(key)\<close> accepts;
  \<^item> \<open>fernet_encrypt key r data\<close> is \<open>Fernet(key).encrypt(data)\<close>, where \<open>r\<close> is what
    the call draws from the system (initialisation vector, timestamp);
  \<^item> \<open>fernet_decrypt key token\<close> is \<open>Fernet(key).decrypt(token)\<close>;
  \<^item> \<open>json_dumps\<close>, \<open>json_loads\<close> are \<open>json.dumps\<close>, \<open>json.loads\<close>;
  \<^item> \<open>str_encode\<close>, \<open>bytes_decode\<close> are \<open>.encode('utf-8')\<close>, \<open>.decode('utf-8')\<close>.
\<close>

record library =
  fernet_generate_key :: "bytes \<Rightarrow> bytes"
  fernet_valid_key :: "bytes \<Rightarrow> bool"
  fernet_encrypt :: "bytes \<Rightarrow> bytes \<Rightarrow> bytes \<Rightarrow> bytes"
  fernet_decrypt :: "bytes \<Rightarrow> bytes \<Rightarrow> exn + bytes"
  json_dumps :: "pyval \<Rightarrow> exn + pystr"
  json_loads :: "pystr \<Rightarrow> exn + pyval"
  str_encode :: "pystr \<Rightarrow> exn + bytes"
  bytes_decode :: "bytes \<Rightarrow> exn + pystr"

text \<open>
  \<open>Fernet(key)\<close>: \<open>None\<close> is not bytes-like (\<open>TypeError\<close>), a key that is not 32
  url-safe base64-encoded bytes is a \<open>ValueError\<close>. An accepted key stands for the cipher
  suite built from it.
\<close>

definition Fernet :: "library \<Rightarrow> bytes option \<Rightarrow> exn + bytes" where
  "Fernet L key =
     (case key of
        None \<Rightarrow> Inl TypeError
      | Some k \<Rightarrow> if fernet_valid_key L k then Inr k else Inl ValueError)"

text \<open>
  The two configured paths, taken to be different files. A file that does not exist is
  \<open>None\<close>. What the file system does with a request is part of the world:
  \<open>readable\<close> says whether opening and reading a file succeeds; \<open>writing\<close> says how
  \<open>open(path, 'wb')\<close> followed by \<open>write\<close> ends: it succeeds, or the open fails and nothing
  changes, or the open succeeds, which truncates the file, and the write fails after \<open>n\<close>
  bytes (disk full). \<open>entropy\<close> is what \<open>os.urandom\<close> will return next.
\<close>

datatype path = ENCRYPTION_KEY_FILE | TOLINO_CREDENTIALS_FILE

datatype write_outcome = WriteOk | OpenFails | WriteFails nat

datatype log_entry = Info pystr | ErrorTrace pystr exn

record world =
  files :: "path \<Rightarrow> bytes option"
  readable :: "path \<Rightarrow> bool"
  writing :: "path \<Rightarrow> write_outcome"
  entropy :: "bytes list"
  logged :: "log_entry list"

definition path_exists :: "world \<Rightarrow> path \<Rightarrow> bool" where
  "path_exists w p = (files w p \<noteq> None)"

definition read_file :: "world \<Rightarrow> path \<Rightarrow> exn + bytes" where
  "read_file w p =
     (case files w p of
        None \<Rightarrow> Inl OSError
      | Some b \<Rightarrow> if readable w p then Inr b else Inl OSError)"

definition write_file :: "world \<Rightarrow> path \<Rightarrow> bytes \<Rightarrow> (exn + unit) \<times> world" where
  "write_file w p data =
     (case writing w p of
        WriteOk \<Rightarrow> (Inr (), w\<lparr>files := (files w)(p \<mapsto> data)\<rparr>)
      | OpenFails \<Rightarrow> (Inl OSError, w)
      | WriteFails n \<Rightarrow> (Inl OSError, w\<lparr>files := (files w)(p \<mapsto> take n data)\<rparr>))"

definition os_urandom :: "world \<Rightarrow> exn + (bytes \<times> world)" where
  "os_urandom w =
     (case entropy w of
        [] \<Rightarrow> Inl OSError
      | r # rs \<Rightarrow> Inr (r, w\<lparr>entropy := rs\<rparr>))"

text \<open>
  Modelled from the spec: the module \<open>logger\<close> (\<open>setup_logger\<close>, with the methods
  \<open>info\<close> and \<open>error_trace\<close>) is not among the sources. The spec has every failure
  logged with its cause and the operation carry on, so a call appends one entry to the log
  and does not fail.
\<close>

definition logger_info :: "pystr \<Rightarrow> world \<Rightarrow> world" where
  "logger_info msg w = w\<lparr>logged := logged w @ [Info msg]\<rparr>"

definition logger_error_trace :: "pystr \<Rightarrow> exn \<Rightarrow> world \<Rightarrow> world" where
  "logger_error_trace msg e w = w\<lparr>logged := logged w @ [ErrorTrace msg e]\<rparr>"


section \<open>The credential cache (tolino\_uploader.py)\<close>

text \<open>
  Of the object's fields only \<open>_credentials\<close> and \<open>_encryption_key\<close> are used by the
  methods below; the browser handles are left out.
\<close>

record uploader =
  credentials :: pyval
  encryption_key :: "bytes option"

text \<open>The truth value of \<open>self._encryption_key\<close>: \<open>None\<close> and \<open>b''\<close> are false.\<close>

definition key_truthy :: "bytes option \<Rightarrow> bool" where
  "key_truthy key = (case key of None \<Rightarrow> False | Some k \<Rightarrow> k \<noteq> [])"

text \<open>
  \<open>_load_encryption_key\<close>. The body of the \<open>try\<close> block returns the exception it ends
  with, if any, together with the state reached by then: an assignment made before the
  exception stays. The method is the body followed by the handler.
\<close>

definition load_encryption_key_body ::
    "library \<Rightarrow> uploader \<Rightarrow> world \<Rightarrow> (exn + unit) \<times> uploader \<times> world" where
  "load_encryption_key_body L u w =
     (if path_exists w ENCRYPTION_KEY_FILE then
        (case read_file w ENCRYPTION_KEY_FILE of
           Inl e \<Rightarrow> (Inl e, u, w)
         | Inr b \<Rightarrow> (Inr (), u\<lparr>encryption_key := Some b\<rparr>, w))
      else
        (case os_urandom w of
           Inl e \<Rightarrow> (Inl e, u, w)
         | Inr (r, w1) \<Rightarrow>
             (let u1 = u\<lparr>encryption_key := Some (fernet_generate_key L r)\<rparr>
              in case write_file w1 ENCRYPTION_KEY_FILE (fernet_generate_key L r) of
                   (Inl e, w2) \<Rightarrow> (Inl e, u1, w2)
                 | (Inr _, w2) \<Rightarrow>
                     (Inr (), u1, logger_info ''Generated new encryption key'' w2))))"

definition load_encryption_key :: "library \<Rightarrow> uploader \<Rightarrow> world \<Rightarrow> uploader \<times> world" where
  "load_encryption_key L u w =
     (case load_encryption_key_body L u w of
        (Inr _, u', w') \<Rightarrow> (u', w')
      | (Inl e, u', w') \<Rightarrow>
          (u', logger_error_trace ''Error loading/generating encryption key'' e w'))"

text \<open>\<open>_load_credentials\<close>: the handler also resets the record to \<open>{}\<close>.\<close>

definition load_credentials_body ::
    "library \<Rightarrow> uploader \<Rightarrow> world \<Rightarrow> (exn + unit) \<times> uploader \<times> world" where
  "load_credentials_body L u w =
     (if path_exists w TOLINO_CREDENTIALS_FILE \<and> key_truthy (encryption_key u) then
        (case read_file w TOLINO_CREDENTIALS_FILE of
           Inl e \<Rightarrow> (Inl e, u, w)
         | Inr encrypted_data \<Rightarrow>
        (case Fernet L (encryption_key u) of
           Inl e \<Rightarrow> (Inl e, u, w)
         | Inr cipher_suite \<Rightarrow>
        (case fernet_decrypt L cipher_suite encrypted_data of
           Inl e \<Rightarrow> (Inl e, u, w)
         | Inr decrypted_data \<Rightarrow>
        (case bytes_decode L decrypted_data of
           Inl e \<Rightarrow> (Inl e, u, w)
         | Inr text \<Rightarrow>
        (case json_loads L text of
           Inl e \<Rightarrow> (Inl e, u, w)
         | Inr v \<Rightarrow>
             (Inr (), u\<lparr>credentials := v\<rparr>, logger_info ''Loaded Tolino credentials'' w))))))
      else (Inr (), u, w))"

definition load_credentials :: "library \<Rightarrow> uploader \<Rightarrow> world \<Rightarrow> uploader \<times> world" where
  "load_credentials L u w =
     (case load_credentials_body L u w of
        (Inr _, u', w') \<Rightarrow> (u', w')
      | (Inl e, u', w') \<Rightarrow>
          (u'\<lparr>credentials := PDict []\<rparr>, logger_error_trace ''Error loading credentials'' e w'))"

text \<open>\<open>__init__\<close>: both fields start empty, then the key and the credentials are loaded.\<close>

definition init :: "library \<Rightarrow> world \<Rightarrow> uploader \<times> world" where
  "init L w =
     (let u0 = \<lparr>credentials = PDict [], encryption_key = None\<rparr>;
          (u1, w1) = load_encryption_key L u0 w
      in load_credentials L u1 w1)"

text \<open>
  \<open>save_credentials\<close>. The record is assigned before the cipher suite is built; the
  argument of \<open>encrypt\<close> is evaluated before \<open>encrypt\<close> draws its random bytes.
\<close>

definition cred_dict :: "pystr \<Rightarrow> pystr \<Rightarrow> pyval" where
  "cred_dict username password =
     PDict [(''username'', PStr username), (''password'', PStr password)]"

definition save_credentials_body ::
    "library \<Rightarrow> pystr \<Rightarrow> pystr \<Rightarrow> uploader \<Rightarrow> world \<Rightarrow> (exn + bool) \<times> uploader \<times> world" where
  "save_credentials_body L username password u w =
     (let (u1, w1) = (if \<not> key_truthy (encryption_key u)
                      then load_encryption_key L u w else (u, w));
          u2 = u1\<lparr>credentials := cred_dict username password\<rparr>
      in
        (case Fernet L (encryption_key u2) of
           Inl e \<Rightarrow> (Inl e, u2, w1)
         | Inr cipher_suite \<Rightarrow>
        (case json_dumps L (credentials u2) of
           Inl e \<Rightarrow> (Inl e, u2, w1)
         | Inr text \<Rightarrow>
        (case str_encode L text of
           Inl e \<Rightarrow> (Inl e, u2, w1)
         | Inr plain \<Rightarrow>
        (case os_urandom w1 of
           Inl e \<Rightarrow> (Inl e, u2, w1)
         | Inr (r, w2) \<Rightarrow>
        (case write_file w2 TOLINO_CREDENTIALS_FILE (fernet_encrypt L cipher_suite r plain) of
           (Inl e, w3) \<Rightarrow> (Inl e, u2, w3)
         | (Inr _, w3) \<Rightarrow>
             (Inr True, u2, logger_info ''Saved Tolino credentials'' w3)))))))"

definition save_credentials ::
    "library \<Rightarrow> pystr \<Rightarrow> pystr \<Rightarrow> uploader \<Rightarrow> world \<Rightarrow> bool \<times> uploader \<times> world" where
  "save_credentials L username password u w =
     (case save_credentials_body L username password u w of
        (Inr b, u', w') \<Rightarrow> (b, u', w')
      | (Inl e, u', w') \<Rightarrow> (False, u', logger_error_trace ''Error saving credentials'' e w'))"

text \<open>
  \<open>has_credentials\<close>: \<open>bool(c.get("username") and c.get("password"))\<close>. Only a \<open>dict\<close>
  has the method \<open>get\<close>; on any other value the attribute lookup raises. \<open>get\<close> returns
  \<open>None\<close> for a missing key; \<open>and\<close> evaluates its right operand only when the left one
  is true.
\<close>

fun truthy :: "pyval \<Rightarrow> bool" where
  "truthy PNone = False"
| "truthy (PBool b) = b"
| "truthy (PInt i) = (i \<noteq> 0)"
| "truthy (PStr s) = (s \<noteq> [])"
| "truthy (PList xs) = (xs \<noteq> [])"
| "truthy (PDict kvs) = (kvs \<noteq> [])"

definition dict_get :: "pyval \<Rightarrow> pystr \<Rightarrow> exn + pyval" where
  "dict_get d k =
     (case d of
        PDict kvs \<Rightarrow> (case map_of kvs k of None \<Rightarrow> Inr PNone | Some v \<Rightarrow> Inr v)
      | _ \<Rightarrow> Inl AttributeError)"

definition has_credentials :: "uploader \<Rightarrow> exn + bool" where
  "has_credentials u =
     (case dict_get (credentials u) ''username'' of
        Inl e \<Rightarrow> Inl e
      | Inr a \<Rightarrow>
          if truthy a then
            (case dict_get (credentials u) ''password'' of
               Inl e \<Rightarrow> Inl e
             | Inr b \<Rightarrow> Inr (truthy b))
          else Inr False)"

section \<open>What the libraries are assumed to do\<close>

text \<open>
  The round trip needs the libraries to be correct: a key that \<open>Fernet\<close> accepts is not
  empty and decrypts what it encrypted; \<open>json.loads\<close> inverts \<open>json.dumps\<close> on a
  record of two strings; decoding inverts encoding.
\<close>

definition fernet_correct :: "library \<Rightarrow> bool" where
  "fernet_correct L =
     (\<forall>k r m. fernet_valid_key L k \<longrightarrow>
        k \<noteq> [] \<and> fernet_decrypt L k (fernet_encrypt L k r m) = Inr m)"

definition serialisation_correct :: "library \<Rightarrow> bool" where
  "serialisation_correct L =
     ((\<forall>username password text.
         json_dumps L (cred_dict username password) = Inr text \<longrightarrow>
         json_loads L text = Inr (cred_dict username password)) \<and>
      (\<forall>text b. str_encode L text = Inr b \<longrightarrow> bytes_decode L b = Inr text))"

text \<open>
  A small instance of the library interface, to run the model on concrete inputs. A key is
  valid when it is not empty; a token is the key followed by the plain text, and decryption
  checks that prefix; a record of two strings is written as the length of the first in
  unary, a \<open>0\<close>, and the two strings, and \<open>[]\<close> is the empty list.
\<close>

definition toy_decrypt :: "bytes \<Rightarrow> bytes \<Rightarrow> exn + bytes" where
  "toy_decrypt k token =
     (if take (length k) token = k then Inr (drop (length k) token) else Inl InvalidToken)"

fun toy_dumps :: "pyval \<Rightarrow> exn + pystr" where
  "toy_dumps (PDict [(a, PStr x), (b, PStr y)]) =
     Inr (replicate (length x) (CHR ''1'') @ CHR ''0'' # x @ y)"
| "toy_dumps (PList []) = Inr ''[]''"
| "toy_dumps v = Inl TypeError"

definition toy_loads :: "pystr \<Rightarrow> exn + pyval" where
  "toy_loads text =
     (if text = ''[]'' then Inr (PList [])
      else if CHR ''0'' \<notin> set text then Inl JSONDecodeError
      else (let n = length (takeWhile (\<lambda>c. c = CHR ''1'') text);
                rest = drop (Suc n) text
            in Inr (cred_dict (take n rest) (drop n rest))))"

definition toy_library :: library where
  "toy_library =
     \<lparr>fernet_generate_key = (\<lambda>r. r),
      fernet_valid_key = (\<lambda>k. k \<noteq> []),
      fernet_encrypt = (\<lambda>k r m. k @ m),
      fernet_decrypt = toy_decrypt,
      json_dumps = toy_dumps,
      json_loads = toy_loads,
      str_encode = (\<lambda>text. Inr (map (\<lambda>c. word_of_nat (of_char c)) text)),
      bytes_decode = (\<lambda>b. Inr (map (\<lambda>x. char_of (unat x)) b))\<rparr>"

text \<open>Worlds for the examples: no faults, the given files, two draws of random bytes.\<close>

definition plain_world :: "bytes option \<Rightarrow> bytes option \<Rightarrow> world" where
  "plain_world key cred =
     \<lparr>files = (\<lambda>p. case p of ENCRYPTION_KEY_FILE \<Rightarrow> key | TOLINO_CREDENTIALS_FILE \<Rightarrow> cred),
      readable = (\<lambda>p. True),
      writing = (\<lambda>p. WriteOk),
      entropy = [[7], [9]],
      logged = []\<rparr>"

section \<open>Frame properties of the key step\<close>

lemmas model_defs =
  path_exists_def read_file_def write_file_def os_urandom_def logger_info_def
  logger_error_trace_def key_truthy_def Fernet_def

lemma load_encryption_key_frame:
  "credentials (fst (load_encryption_key L u w)) = credentials u"
  "files (snd (load_encryption_key L u w)) TOLINO_CREDENTIALS_FILE
     = files w TOLINO_CREDENTIALS_FILE"
  "readable (snd (load_encryption_key L u w)) = readable w"
  "writing (snd (load_encryption_key L u w)) = writing w"
  by (auto simp: load_encryption_key_def load_encryption_key_body_def model_defs Let_def
           split: sum.splits prod.splits option.splits write_outcome.splits list.splits)

lemma load_encryption_key_keeps_file:
  "files w ENCRYPTION_KEY_FILE = Some k \<Longrightarrow>
   files (snd (load_encryption_key L u w)) ENCRYPTION_KEY_FILE = Some k"
  by (auto simp: load_encryption_key_def load_encryption_key_body_def model_defs Let_def
           split: sum.splits prod.splits option.splits write_outcome.splits list.splits)

lemma load_encryption_key_existing:
  "files w ENCRYPTION_KEY_FILE = Some k \<Longrightarrow> readable w ENCRYPTION_KEY_FILE \<Longrightarrow>
   load_encryption_key L u w = (u\<lparr>encryption_key := Some k\<rparr>, w)"
  by (simp add: load_encryption_key_def load_encryption_key_body_def model_defs)


section \<open>Loading the key\<close>

text \<open>
  C6. If the key file exists (and reading it succeeds), \<open>_load_encryption_key\<close> sets the
  in-memory key to exactly the bytes of the file, whatever they are, and changes nothing
  else: the file and the rest of the world are as before. A second call, made on the
  state the first one left, finds the same file and yields the same key.
\<close>

theorem load_encryption_key_reads_key_file:
  assumes "files w ENCRYPTION_KEY_FILE = Some k" and "readable w ENCRYPTION_KEY_FILE"
  shows "load_encryption_key L u w = (u\<lparr>encryption_key := Some k\<rparr>, w) \<and>
         (case load_encryption_key L u w of
            (u1, w1) \<Rightarrow>
              files w1 ENCRYPTION_KEY_FILE = Some k \<and>
              encryption_key (fst (load_encryption_key L u1 w1)) = encryption_key u1)"
  using assms by (simp add: load_encryption_key_existing)

theorem load_encryption_key_reads_key_file_witness:
  "files (plain_world (Some [1, 2, 3]) None) ENCRYPTION_KEY_FILE = Some [1, 2, 3] \<and>
   readable (plain_world (Some [1, 2, 3]) None) ENCRYPTION_KEY_FILE \<and>
   encryption_key (fst (load_encryption_key toy_library
      \<lparr>credentials = PDict [], encryption_key = None\<rparr> (plain_world (Some [1, 2, 3]) None)))
     = Some [1, 2, 3]"
proof -
  have a: "files (plain_world (Some [1, 2, 3]) None) ENCRYPTION_KEY_FILE = Some [1, 2, 3]"
    by (simp add: plain_world_def)
  have b: "readable (plain_world (Some [1, 2, 3]) None) ENCRYPTION_KEY_FILE"
    by (simp add: plain_world_def)
  show ?thesis
    using a b load_encryption_key_reads_key_file [OF a b, of toy_library
        "\<lparr>credentials = PDict [], encryption_key = None\<rparr>"]
    by simp
qed

section \<open>Loading the credentials\<close>

lemma load_credentials_skips:
  "\<not> path_exists w TOLINO_CREDENTIALS_FILE \<or> \<not> key_truthy (encryption_key u) \<Longrightarrow>
   load_credentials L u w = (u, w)"
  by (auto simp: load_credentials_def load_credentials_body_def)

lemma load_credentials_raised:
  "fst (load_credentials_body L u w) = Inl e \<Longrightarrow>
   load_credentials L u w =
     (u\<lparr>credentials := PDict []\<rparr>, logger_error_trace ''Error loading credentials'' e w)"
  by (auto simp: load_credentials_def load_credentials_body_def
           split: sum.splits if_splits)

lemma load_credentials_returned:
  "fst (load_credentials_body L u w) = Inr x \<Longrightarrow>
   load_credentials L u w = snd (load_credentials_body L u w)"
  by (auto simp: load_credentials_def split: sum.splits prod.splits)

lemma load_credentials_body_guard:
  "fst (load_credentials_body L u w) = Inl e \<Longrightarrow>
   path_exists w TOLINO_CREDENTIALS_FILE \<and> key_truthy (encryption_key u)"
  by (auto simp: load_credentials_body_def split: if_splits)

lemma load_credentials_body_parsed:
  "fst (load_credentials_body L u w) = Inr x \<Longrightarrow>
   path_exists w TOLINO_CREDENTIALS_FILE \<Longrightarrow> key_truthy (encryption_key u) \<Longrightarrow>
   \<exists>text. json_loads L text = Inr (credentials (fst (snd (load_credentials_body L u w))))"
  by (auto simp: load_credentials_body_def split: sum.splits)

lemma init_unfold:
  "init L w =
     load_credentials L
       (fst (load_encryption_key L \<lparr>credentials = PDict [], encryption_key = None\<rparr> w))
       (snd (load_encryption_key L \<lparr>credentials = PDict [], encryption_key = None\<rparr> w))"
  by (simp add: init_def Let_def split: prod.splits)

lemma load_credentials_failed_step:
  assumes "encryption_key u = Some k" "k \<noteq> []" "files w TOLINO_CREDENTIALS_FILE = Some data"
    and "\<not> readable w TOLINO_CREDENTIALS_FILE \<or> \<not> fernet_valid_key L k \<or>
         (\<exists>e. fernet_decrypt L k data = Inl e) \<or>
         (\<exists>d e. fernet_decrypt L k data = Inr d \<and> bytes_decode L d = Inl e) \<or>
         (\<exists>d text e. fernet_decrypt L k data = Inr d \<and> bytes_decode L d = Inr text \<and>
            json_loads L text = Inl e)"
  shows "\<exists>e. fst (load_credentials_body L u w) = Inl e"
  using assms
  by (auto simp: load_credentials_body_def model_defs split: sum.splits)

text \<open>
  C9. When the credentials file does not exist or no usable key is in memory,
  \<open>_load_credentials\<close> changes nothing: the record, the key and the world (the log
  included) are as before, so a cached record is not cleared. The record is reset to
  \<open>{}\<close> exactly when the body raises, which only happens behind the guard (file present
  and key set); the failure is then logged. When the body returns normally, the handler
  does not run: the record is either untouched or the value that \<open>json.loads\<close> returned.
\<close>

theorem load_credentials_keeps_or_resets:
  "(\<not> path_exists w TOLINO_CREDENTIALS_FILE \<or> \<not> key_truthy (encryption_key u) \<longrightarrow>
      load_credentials L u w = (u, w)) \<and>
   (\<forall>e. fst (load_credentials_body L u w) = Inl e \<longrightarrow>
      path_exists w TOLINO_CREDENTIALS_FILE \<and> key_truthy (encryption_key u) \<and>
      load_credentials L u w =
        (u\<lparr>credentials := PDict []\<rparr>, logger_error_trace ''Error loading credentials'' e w)) \<and>
   (fst (load_credentials_body L u w) = Inr () \<longrightarrow>
      load_credentials L u w = snd (load_credentials_body L u w) \<and>
      (credentials (fst (load_credentials L u w)) = credentials u \<or>
       (\<exists>text. json_loads L text = Inr (credentials (fst (load_credentials L u w))))))"
proof (intro conjI allI impI)
  assume "\<not> path_exists w TOLINO_CREDENTIALS_FILE \<or> \<not> key_truthy (encryption_key u)"
  then show "load_credentials L u w = (u, w)" by (rule load_credentials_skips)
next
  fix e assume "fst (load_credentials_body L u w) = Inl e"
  then show "path_exists w TOLINO_CREDENTIALS_FILE" "key_truthy (encryption_key u)"
    "load_credentials L u w =
        (u\<lparr>credentials := PDict []\<rparr>, logger_error_trace ''Error loading credentials'' e w)"
    by (simp_all add: load_credentials_body_guard load_credentials_raised)
next
  assume r: "fst (load_credentials_body L u w) = Inr ()"
  then show eq: "load_credentials L u w = snd (load_credentials_body L u w)"
    by (rule load_credentials_returned)
  show "credentials (fst (load_credentials L u w)) = credentials u \<or>
       (\<exists>text. json_loads L text = Inr (credentials (fst (load_credentials L u w))))"
  proof (cases "path_exists w TOLINO_CREDENTIALS_FILE \<and> key_truthy (encryption_key u)")
    case True
    then show ?thesis using load_credentials_body_parsed [OF r] eq by simp
  next
    case False
    then have "load_credentials L u w = (u, w)" using load_credentials_skips by blast
    then show ?thesis by simp
  qed
qed

theorem load_credentials_keeps_or_resets_witness:
  "\<not> path_exists (plain_world (Some [7]) None) TOLINO_CREDENTIALS_FILE \<and>
   load_credentials toy_library
     \<lparr>credentials = cred_dict ''reader'' ''pw'', encryption_key = Some [7]\<rparr>
     (plain_world (Some [7]) None)
   = (\<lparr>credentials = cred_dict ''reader'' ''pw'', encryption_key = Some [7]\<rparr>,
      plain_world (Some [7]) None) \<and>
   fst (load_credentials_body toy_library
     \<lparr>credentials = cred_dict ''reader'' ''pw'', encryption_key = Some [7]\<rparr>
     (plain_world (Some [7]) (Some [8, 1]))) = Inl InvalidToken \<and>
   credentials (fst (load_credentials toy_library
     \<lparr>credentials = cred_dict ''reader'' ''pw'', encryption_key = Some [7]\<rparr>
     (plain_world (Some [7]) (Some [8, 1])))) = PDict []"
proof -
  let ?u = "\<lparr>credentials = cred_dict ''reader'' ''pw'', encryption_key = Some [7]\<rparr>"
  have a: "\<not> path_exists (plain_world (Some [7]) None) TOLINO_CREDENTIALS_FILE"
    by (simp add: path_exists_def plain_world_def)
  have b: "fst (load_credentials_body toy_library ?u (plain_world (Some [7]) (Some [8, 1])))
             = Inl InvalidToken"
    by (simp add: load_credentials_body_def model_defs plain_world_def toy_library_def
          toy_decrypt_def)
  show ?thesis
    using a b
      load_credentials_keeps_or_resets [of "plain_world (Some [7]) None" ?u toy_library]
      load_credentials_keeps_or_resets [of "plain_world (Some [7]) (Some [8, 1])" ?u toy_library]
    by simp
qed

text \<open>
  C2, as the code has it. From any state, \<open>_load_credentials\<close> ends with the empty
  record when the file is there and a key is set but a step fails: the read, the
  construction of the cipher suite, the authenticated decryption under the key in memory
  (whatever made the token invalid: a changed byte, a key other than the one it was
  written under), the decoding or the JSON parse. When the file does not exist or no key
  is available, the call leaves the record as it was; this is the empty record at
  construction, the one place where the method is called. Whether a changed byte or
  another key makes the decryption fail is a property of the cryptography library, not of
  this code: the theorem holds for every library.
\<close>

theorem load_credentials_absent:
  "(files w TOLINO_CREDENTIALS_FILE = None \<or> \<not> key_truthy (encryption_key u) \<longrightarrow>
      credentials (fst (load_credentials L u w)) = credentials u) \<and>
   (\<forall>k data.
      encryption_key u = Some k \<and> k \<noteq> [] \<and> files w TOLINO_CREDENTIALS_FILE = Some data \<longrightarrow>
      (\<not> readable w TOLINO_CREDENTIALS_FILE \<or> \<not> fernet_valid_key L k \<or>
       (\<exists>e. fernet_decrypt L k data = Inl e) \<or>
       (\<exists>d e. fernet_decrypt L k data = Inr d \<and> bytes_decode L d = Inl e) \<or>
       (\<exists>d text e. fernet_decrypt L k data = Inr d \<and> bytes_decode L d = Inr text \<and>
          json_loads L text = Inl e)) \<longrightarrow>
      credentials (fst (load_credentials L u w)) = PDict []) \<and>
   (files w TOLINO_CREDENTIALS_FILE = None \<or>
    \<not> key_truthy (encryption_key
         (fst (load_encryption_key L \<lparr>credentials = PDict [], encryption_key = None\<rparr> w))) \<longrightarrow>
      credentials (fst (init L w)) = PDict [])"
proof (intro conjI allI impI)
  assume "files w TOLINO_CREDENTIALS_FILE = None \<or> \<not> key_truthy (encryption_key u)"
  then have "load_credentials L u w = (u, w)"
    using load_credentials_skips [of w u L] by (auto simp: path_exists_def)
  then show "credentials (fst (load_credentials L u w)) = credentials u" by simp
next
  fix k data
  assume h: "encryption_key u = Some k \<and> k \<noteq> [] \<and> files w TOLINO_CREDENTIALS_FILE = Some data"
    and f: "\<not> readable w TOLINO_CREDENTIALS_FILE \<or> \<not> fernet_valid_key L k \<or>
       (\<exists>e. fernet_decrypt L k data = Inl e) \<or>
       (\<exists>d e. fernet_decrypt L k data = Inr d \<and> bytes_decode L d = Inl e) \<or>
       (\<exists>d text e. fernet_decrypt L k data = Inr d \<and> bytes_decode L d = Inr text \<and>
          json_loads L text = Inl e)"
  from h f obtain e where "fst (load_credentials_body L u w) = Inl e"
    using load_credentials_failed_step [of u k w data L] by blast
  then show "credentials (fst (load_credentials L u w)) = PDict []"
    by (simp add: load_credentials_raised)
next
  let ?u0 = "\<lparr>credentials = PDict [], encryption_key = None\<rparr>"
  let ?r = "load_encryption_key L ?u0 w"
  assume "files w TOLINO_CREDENTIALS_FILE = None \<or> \<not> key_truthy (encryption_key (fst ?r))"
  then have "\<not> path_exists (snd ?r) TOLINO_CREDENTIALS_FILE \<or>
             \<not> key_truthy (encryption_key (fst ?r))"
    by (auto simp: path_exists_def load_encryption_key_frame)
  then have "load_credentials L (fst ?r) (snd ?r) = (fst ?r, snd ?r)"
    by (rule load_credentials_skips)
  then show "credentials (fst (init L w)) = PDict []"
    by (simp add: init_unfold load_encryption_key_frame)
qed

theorem load_credentials_absent_witness:
  "files (plain_world None None) TOLINO_CREDENTIALS_FILE = None \<and>
   credentials (fst (init toy_library (plain_world None None))) = PDict [] \<and>
   [7] \<noteq> ([] :: bytes) \<and>
   fernet_decrypt toy_library [7] [8, 1] = Inl InvalidToken \<and>
   credentials (fst (load_credentials toy_library
     \<lparr>credentials = cred_dict ''reader'' ''pw'', encryption_key = Some [7]\<rparr>
     (plain_world (Some [7]) (Some [8, 1])))) = PDict []"
proof -
  let ?u = "\<lparr>credentials = cred_dict ''reader'' ''pw'', encryption_key = Some [7]\<rparr>"
  have a: "files (plain_world None None) TOLINO_CREDENTIALS_FILE = None"
    by (simp add: plain_world_def)
  have b: "fernet_decrypt toy_library [7] [8, 1] = Inl InvalidToken"
    by (simp add: toy_library_def toy_decrypt_def)
  have c: "encryption_key ?u = Some [7] \<and> [7] \<noteq> ([] :: bytes) \<and>
           files (plain_world (Some [7]) (Some [8, 1])) TOLINO_CREDENTIALS_FILE = Some [8, 1]"
    by (simp add: plain_world_def)
  show ?thesis
    using a b c
      load_credentials_absent [of "plain_world None None" ?u toy_library]
      load_credentials_absent [of "plain_world (Some [7]) (Some [8, 1])" ?u toy_library]
    by blast
qed

text \<open>
  The claim C2 as stated, with the record empty after every call where the file is
  missing, fails when a record is cached: the call returns without touching it.
\<close>

theorem load_credentials_stale_counterexample:
  "files (plain_world (Some [7]) None) TOLINO_CREDENTIALS_FILE = None \<and>
   credentials (fst (load_credentials toy_library
     \<lparr>credentials = cred_dict ''reader'' ''pw'', encryption_key = Some [7]\<rparr>
     (plain_world (Some [7]) None))) \<noteq> PDict []"
  by (simp add: load_credentials_def load_credentials_body_def model_defs plain_world_def
        cred_dict_def)


section \<open>Saving and querying the credentials\<close>

lemma has_credentials_cred_dict:
  "credentials u = cred_dict username password \<Longrightarrow>
   has_credentials u = Inr (username \<noteq> [] \<and> password \<noteq> [])"
  by (simp add: has_credentials_def dict_get_def cred_dict_def)

lemma save_credentials_record:
  "credentials (fst (snd (save_credentials L username password u w)))
     = cred_dict username password"
  by (simp add: save_credentials_def save_credentials_body_def Let_def
           split: sum.splits prod.splits)

lemma save_credentials_raised:
  "fst (save_credentials_body L username password u w) = Inl e \<Longrightarrow>
   save_credentials L username password u w =
     (False, fst (snd (save_credentials_body L username password u w)),
      logger_error_trace ''Error saving credentials'' e
        (snd (snd (save_credentials_body L username password u w))))"
  by (cases "save_credentials_body L username password u w")
     (auto simp: save_credentials_def)

lemma save_credentials_body_result:
  "fst (save_credentials_body L username password u w) = Inr b \<Longrightarrow> b"
  by (auto simp: save_credentials_body_def Let_def split: sum.splits prod.splits)

lemma save_credentials_file_kept:
  assumes "\<not> fst (save_credentials L username password u w)"
    and "\<forall>n. writing w TOLINO_CREDENTIALS_FILE \<noteq> WriteFails n"
  shows "files (snd (snd (save_credentials L username password u w))) TOLINO_CREDENTIALS_FILE
           = files w TOLINO_CREDENTIALS_FILE"
proof -
  obtain u1 w1 where ks:
    "(if \<not> key_truthy (encryption_key u) then load_encryption_key L u w else (u, w)) = (u1, w1)"
    by fastforce
  have f: "files w1 TOLINO_CREDENTIALS_FILE = files w TOLINO_CREDENTIALS_FILE"
    and g: "writing w1 = writing w"
    using ks load_encryption_key_frame [of L u w] by (auto split: if_splits)
  show ?thesis
    using assms f g
    unfolding save_credentials_def save_credentials_body_def ks Let_def
    by (auto simp: model_defs split: sum.splits prod.splits option.splits list.splits
          write_outcome.splits if_splits)
qed

lemma save_credentials_key_file_kept:
  assumes "files w ENCRYPTION_KEY_FILE = Some k"
  shows "files (snd (snd (save_credentials L username password u w))) ENCRYPTION_KEY_FILE
           = Some k"
proof -
  obtain u1 w1 where ks:
    "(if \<not> key_truthy (encryption_key u) then load_encryption_key L u w else (u, w)) = (u1, w1)"
    by fastforce
  have f: "files w1 ENCRYPTION_KEY_FILE = Some k"
    using ks assms load_encryption_key_keeps_file [of w k L u] by (auto split: if_splits)
  show ?thesis
    using f
    unfolding save_credentials_def save_credentials_body_def ks Let_def
    by (auto simp: model_defs split: sum.splits prod.splits option.splits list.splits
          write_outcome.splits if_splits)
qed

text \<open>
  C4. \<open>has_credentials\<close> returns \<open>True\<close> exactly when the cached record is a \<open>dict\<close>
  that has a true value under \<open>"username"\<close> and under \<open>"password"\<close>; for a record of
  strings, as the field is declared (\<open>Dict[str, str]\<close>), it returns whether both strings
  are present and non-empty, so a missing or empty field gives \<open>False\<close>. The result is a
  function of the in-memory record alone: the model of the method takes neither the world
  nor the key and returns no state, as the source reads \<open>self._credentials\<close> only.
\<close>

theorem has_credentials_both_fields:
  "(has_credentials u = Inr True \<longleftrightarrow>
      (\<exists>kvs a b. credentials u = PDict kvs \<and>
         map_of kvs ''username'' = Some a \<and> truthy a \<and>
         map_of kvs ''password'' = Some b \<and> truthy b)) \<and>
   (\<forall>kvs. credentials u = PDict kvs \<and> (\<forall>k v. map_of kvs k = Some v \<longrightarrow> (\<exists>s. v = PStr s)) \<longrightarrow>
      has_credentials u =
        Inr ((\<exists>s. map_of kvs ''username'' = Some (PStr s) \<and> s \<noteq> []) \<and>
             (\<exists>s. map_of kvs ''password'' = Some (PStr s) \<and> s \<noteq> []))) \<and>
   (\<forall>u'. credentials u' = credentials u \<longrightarrow> has_credentials u' = has_credentials u)"
proof (intro conjI allI impI)
  show "has_credentials u = Inr True \<longleftrightarrow>
      (\<exists>kvs a b. credentials u = PDict kvs \<and>
         map_of kvs ''username'' = Some a \<and> truthy a \<and>
         map_of kvs ''password'' = Some b \<and> truthy b)"
    by (cases "credentials u")
       (auto simp: has_credentials_def dict_get_def split: option.splits if_splits)
next
  fix kvs
  assume h: "credentials u = PDict kvs \<and> (\<forall>k v. map_of kvs k = Some v \<longrightarrow> (\<exists>s. v = PStr s))"
  then have d: "credentials u = PDict kvs" by simp
  from h have s: "\<And>k v. map_of kvs k = Some v \<Longrightarrow> \<exists>s. v = PStr s" by blast
  show "has_credentials u =
        Inr ((\<exists>s. map_of kvs ''username'' = Some (PStr s) \<and> s \<noteq> []) \<and>
             (\<exists>s. map_of kvs ''password'' = Some (PStr s) \<and> s \<noteq> []))"
  proof (cases "map_of kvs ''username''")
    case None
    then show ?thesis by (simp add: has_credentials_def dict_get_def d)
  next
    case (Some a)
    then obtain x where a: "a = PStr x" using s by blast
    show ?thesis
    proof (cases "map_of kvs ''password''")
      case None
      then show ?thesis using Some a by (simp add: has_credentials_def dict_get_def d)
    next
      case pw: (Some b)
      then obtain y where b: "b = PStr y" using s by blast
      show ?thesis using Some a pw b by (simp add: has_credentials_def dict_get_def d)
    qed
  qed
next
  fix u' :: uploader
  assume "credentials u' = credentials u"
  then show "has_credentials u' = has_credentials u"
    unfolding has_credentials_def by (simp split: sum.splits)
qed

theorem has_credentials_both_fields_witness:
  "has_credentials \<lparr>credentials = cred_dict ''reader@example.com'' ''Secr3t!'',
                    encryption_key = None\<rparr> = Inr True \<and>
   has_credentials \<lparr>credentials = PDict [(''password'', PStr ''Secr3t!'')],
                    encryption_key = Some [7]\<rparr> = Inr False \<and>
   has_credentials \<lparr>credentials = PDict [(''password'', PStr ''Secr3t!'')],
                    encryption_key = None\<rparr> =
   has_credentials \<lparr>credentials = PDict [(''password'', PStr ''Secr3t!'')],
                    encryption_key = Some [7]\<rparr>"
proof -
  let ?u = "\<lparr>credentials = cred_dict ''reader@example.com'' ''Secr3t!'', encryption_key = None\<rparr>"
  let ?v = "\<lparr>credentials = PDict [(''password'', PStr ''Secr3t!'')], encryption_key = Some [7]\<rparr>"
  let ?v' = "\<lparr>credentials = PDict [(''password'', PStr ''Secr3t!'')], encryption_key = None\<rparr>"
  note t = has_credentials_both_fields
  have a: "has_credentials ?u = Inr True"
    using t [of ?u, THEN conjunct1] by (simp add: cred_dict_def)
  have c: "has_credentials ?v = Inr False"
    using t [of ?v, THEN conjunct2, THEN conjunct1, THEN spec,
             of "[(''password'', PStr ''Secr3t!'')]"]
    by simp
  have d: "has_credentials ?v' = has_credentials ?v"
    using t [of ?v, THEN conjunct2, THEN conjunct2, THEN spec, of ?v'] by simp
  show ?thesis using a c d by blast
qed

text \<open>
  C8. \<open>save_credentials\<close> assigns the new pair to the in-memory record before it builds
  the cipher suite, encrypts and writes, and the key step before the assignment cannot
  raise. So after every call, whatever it returns, the record is the new pair; with a
  non-empty user name and password \<open>has_credentials\<close> is then \<open>True\<close>, also when the
  call returned \<open>False\<close> and the credentials file is as it was (nothing persisted).
\<close>

theorem save_credentials_sets_record_first:
  "credentials (fst (snd (save_credentials L username password u w)))
     = cred_dict username password \<and>
   (username \<noteq> [] \<and> password \<noteq> [] \<longrightarrow>
      has_credentials (fst (snd (save_credentials L username password u w))) = Inr True) \<and>
   (\<not> fst (save_credentials L username password u w) \<and>
    (\<forall>n. writing w TOLINO_CREDENTIALS_FILE \<noteq> WriteFails n) \<longrightarrow>
      files (snd (snd (save_credentials L username password u w))) TOLINO_CREDENTIALS_FILE
        = files w TOLINO_CREDENTIALS_FILE)"
proof (intro conjI impI)
  show r: "credentials (fst (snd (save_credentials L username password u w)))
     = cred_dict username password"
    by (rule save_credentials_record)
  assume "username \<noteq> [] \<and> password \<noteq> []"
  then show "has_credentials (fst (snd (save_credentials L username password u w))) = Inr True"
    using has_credentials_cred_dict [OF r] by simp
next
  assume "\<not> fst (save_credentials L username password u w) \<and>
    (\<forall>n. writing w TOLINO_CREDENTIALS_FILE \<noteq> WriteFails n)"
  then show "files (snd (snd (save_credentials L username password u w))) TOLINO_CREDENTIALS_FILE
        = files w TOLINO_CREDENTIALS_FILE"
    using save_credentials_file_kept [of L username password u w] by blast
qed

theorem save_credentials_sets_record_first_witness:
  "''reader'' \<noteq> [] \<and> ''pw'' \<noteq> [] \<and>
   \<not> fst (save_credentials toy_library ''reader'' ''pw''
      \<lparr>credentials = PDict [], encryption_key = Some [7]\<rparr>
      (plain_world (Some [7]) None\<lparr>writing := (\<lambda>p. OpenFails)\<rparr>)) \<and>
   files (snd (snd (save_credentials toy_library ''reader'' ''pw''
      \<lparr>credentials = PDict [], encryption_key = Some [7]\<rparr>
      (plain_world (Some [7]) None\<lparr>writing := (\<lambda>p. OpenFails)\<rparr>)))) TOLINO_CREDENTIALS_FILE
     = None \<and>
   has_credentials (fst (snd (save_credentials toy_library ''reader'' ''pw''
      \<lparr>credentials = PDict [], encryption_key = Some [7]\<rparr>
      (plain_world (Some [7]) None\<lparr>writing := (\<lambda>p. OpenFails)\<rparr>)))) = Inr True"
proof -
  let ?u = "\<lparr>credentials = PDict [], encryption_key = Some [7]\<rparr>"
  let ?w = "plain_world (Some [7]) None\<lparr>writing := (\<lambda>p. OpenFails)\<rparr>"
  note t = save_credentials_sets_record_first [of toy_library "''reader''" "''pw''" ?u ?w]
  have n: "''reader'' \<noteq> [] \<and> ''pw'' \<noteq> []" by simp
  have a: "\<not> fst (save_credentials toy_library ''reader'' ''pw'' ?u ?w)"
    by (simp add: save_credentials_def save_credentials_body_def model_defs plain_world_def
          toy_library_def cred_dict_def)
  have b: "\<forall>n. writing ?w TOLINO_CREDENTIALS_FILE \<noteq> WriteFails n" by simp
  have c: "files ?w TOLINO_CREDENTIALS_FILE = None" by (simp add: plain_world_def)
  have h: "has_credentials (fst (snd (save_credentials toy_library ''reader'' ''pw'' ?u ?w)))
             = Inr True"
    using t [THEN conjunct2, THEN conjunct1] n by blast
  have f: "files (snd (snd (save_credentials toy_library ''reader'' ''pw'' ?u ?w)))
             TOLINO_CREDENTIALS_FILE = None"
    using t [THEN conjunct2, THEN conjunct2] a b c by metis
  show ?thesis using n a h f by blast
qed


lemma save_credentials_succeeds_iff:
  assumes ks: "(if \<not> key_truthy (encryption_key u) then load_encryption_key L u w else (u, w))
                 = (u1, w1)"
  shows "fst (save_credentials L username password u w) \<longleftrightarrow>
           (\<exists>k text plain r rs.
              encryption_key u1 = Some k \<and> fernet_valid_key L k \<and>
              json_dumps L (cred_dict username password) = Inr text \<and>
              str_encode L text = Inr plain \<and>
              entropy w1 = r # rs \<and>
              writing w1 TOLINO_CREDENTIALS_FILE = WriteOk)"
  unfolding save_credentials_def save_credentials_body_def ks Let_def
  by (auto simp: model_defs split: sum.splits prod.splits option.splits list.splits
        write_outcome.splits)

lemma save_credentials_success_state:
  assumes ks: "(if \<not> key_truthy (encryption_key u) then load_encryption_key L u w else (u, w))
                 = (u1, w1)"
    and "encryption_key u1 = Some k" "fernet_valid_key L k"
    and "json_dumps L (cred_dict username password) = Inr text"
    and "str_encode L text = Inr plain"
    and "entropy w1 = r # rs"
    and "writing w1 TOLINO_CREDENTIALS_FILE = WriteOk"
  shows "files (snd (snd (save_credentials L username password u w)))
           = (files w1)(TOLINO_CREDENTIALS_FILE \<mapsto> fernet_encrypt L k r plain)"
    and "encryption_key (fst (snd (save_credentials L username password u w))) = Some k"
  using assms(2-)
  unfolding save_credentials_def save_credentials_body_def ks Let_def
  by (auto simp: model_defs)

lemma has_credentials_empty:
  "credentials u = PDict [] \<Longrightarrow> has_credentials u = Inr False"
  by (simp add: has_credentials_def dict_get_def)

lemma init_not_loaded:
  assumes "\<not> path_exists (snd (load_encryption_key L \<lparr>credentials = PDict [], encryption_key = None\<rparr> w))
               TOLINO_CREDENTIALS_FILE \<or>
           \<not> key_truthy (encryption_key
               (fst (load_encryption_key L \<lparr>credentials = PDict [], encryption_key = None\<rparr> w))) \<or>
           (\<exists>e. fst (load_credentials_body L
               (fst (load_encryption_key L \<lparr>credentials = PDict [], encryption_key = None\<rparr> w))
               (snd (load_encryption_key L \<lparr>credentials = PDict [], encryption_key = None\<rparr> w)))
             = Inl e)"
  shows "credentials (fst (init L w)) = PDict []"
proof -
  let ?r = "load_encryption_key L \<lparr>credentials = PDict [], encryption_key = None\<rparr> w"
  have c: "credentials (fst ?r) = PDict []" by (simp add: load_encryption_key_frame)
  from assms consider
      "\<not> path_exists (snd ?r) TOLINO_CREDENTIALS_FILE \<or> \<not> key_truthy (encryption_key (fst ?r))"
    | e where "fst (load_credentials_body L (fst ?r) (snd ?r)) = Inl e"
    by blast
  then show ?thesis
  proof cases
    case 1
    then have "load_credentials L (fst ?r) (snd ?r) = (fst ?r, snd ?r)"
      by (rule load_credentials_skips)
    then show ?thesis using c by (simp add: init_unfold)
  next
    case 2
    then show ?thesis by (simp add: init_unfold load_credentials_raised)
  qed
qed

text \<open>
  C3, as the code has it. \<open>save_credentials\<close> never raises: its result is a boolean.
  It returns \<open>True\<close> exactly when every step succeeds: after the key step a key is in
  memory that \<open>Fernet\<close> accepts, the record serialises and encodes, \<open>encrypt\<close> gets its
  random bytes, and the write of the credentials file completes; the file then holds the
  whole token and the record is the new pair. Whenever the body raises, the call returns
  \<open>False\<close> and the failure is the last entry of the log. After a \<open>False\<close> return the
  credentials file is as it was, unless the file was opened for writing and the write then
  failed. A key file that exists is never changed.
\<close>

theorem save_credentials_outcome:
  "(case (if \<not> key_truthy (encryption_key u) then load_encryption_key L u w else (u, w)) of
      (u1, w1) \<Rightarrow>
        fst (save_credentials L username password u w) \<longleftrightarrow>
          (\<exists>k text plain r rs.
             encryption_key u1 = Some k \<and> fernet_valid_key L k \<and>
             json_dumps L (cred_dict username password) = Inr text \<and>
             str_encode L text = Inr plain \<and>
             entropy w1 = r # rs \<and>
             writing w TOLINO_CREDENTIALS_FILE = WriteOk \<and>
             files (snd (snd (save_credentials L username password u w))) TOLINO_CREDENTIALS_FILE
               = Some (fernet_encrypt L k r plain) \<and>
             credentials (fst (snd (save_credentials L username password u w)))
               = cred_dict username password)) \<and>
   (\<forall>e. fst (save_credentials_body L username password u w) = Inl e \<longrightarrow>
      \<not> fst (save_credentials L username password u w) \<and>
      logged (snd (snd (save_credentials L username password u w))) =
        logged (snd (snd (save_credentials_body L username password u w)))
          @ [ErrorTrace ''Error saving credentials'' e]) \<and>
   (\<not> fst (save_credentials L username password u w) \<and>
    (\<forall>n. writing w TOLINO_CREDENTIALS_FILE \<noteq> WriteFails n) \<longrightarrow>
      files (snd (snd (save_credentials L username password u w))) TOLINO_CREDENTIALS_FILE
        = files w TOLINO_CREDENTIALS_FILE) \<and>
   (\<forall>k. files w ENCRYPTION_KEY_FILE = Some k \<longrightarrow>
      files (snd (snd (save_credentials L username password u w))) ENCRYPTION_KEY_FILE = Some k)"
proof (intro conjI allI impI)
  obtain u1 w1 where ks:
    "(if \<not> key_truthy (encryption_key u) then load_encryption_key L u w else (u, w)) = (u1, w1)"
    by fastforce
  have g: "writing w1 = writing w"
    using ks load_encryption_key_frame [of L u w] by (auto split: if_splits)
  show "case (if \<not> key_truthy (encryption_key u) then load_encryption_key L u w else (u, w)) of
      (u1, w1) \<Rightarrow>
        fst (save_credentials L username password u w) \<longleftrightarrow>
          (\<exists>k text plain r rs.
             encryption_key u1 = Some k \<and> fernet_valid_key L k \<and>
             json_dumps L (cred_dict username password) = Inr text \<and>
             str_encode L text = Inr plain \<and>
             entropy w1 = r # rs \<and>
             writing w TOLINO_CREDENTIALS_FILE = WriteOk \<and>
             files (snd (snd (save_credentials L username password u w))) TOLINO_CREDENTIALS_FILE
               = Some (fernet_encrypt L k r plain) \<and>
             credentials (fst (snd (save_credentials L username password u w)))
               = cred_dict username password)"
    unfolding ks prod.case
  proof
    assume "fst (save_credentials L username password u w)"
    then obtain k t plain r rs where
      st: "encryption_key u1 = Some k" "fernet_valid_key L k"
        "json_dumps L (cred_dict username password) = Inr t"
        "str_encode L t = Inr plain" "entropy w1 = r # rs"
        "writing w1 TOLINO_CREDENTIALS_FILE = WriteOk"
      using save_credentials_succeeds_iff [OF ks] by blast
    have "files (snd (snd (save_credentials L username password u w))) TOLINO_CREDENTIALS_FILE
            = Some (fernet_encrypt L k r plain)"
      using save_credentials_success_state(1) [OF ks st] by simp
    then show "\<exists>k text plain r rs.
             encryption_key u1 = Some k \<and> fernet_valid_key L k \<and>
             json_dumps L (cred_dict username password) = Inr text \<and>
             str_encode L text = Inr plain \<and>
             entropy w1 = r # rs \<and>
             writing w TOLINO_CREDENTIALS_FILE = WriteOk \<and>
             files (snd (snd (save_credentials L username password u w))) TOLINO_CREDENTIALS_FILE
               = Some (fernet_encrypt L k r plain) \<and>
             credentials (fst (snd (save_credentials L username password u w)))
               = cred_dict username password"
      using st g save_credentials_record [of L username password u w] by auto
  next
    assume "\<exists>k text plain r rs.
             encryption_key u1 = Some k \<and> fernet_valid_key L k \<and>
             json_dumps L (cred_dict username password) = Inr text \<and>
             str_encode L text = Inr plain \<and>
             entropy w1 = r # rs \<and>
             writing w TOLINO_CREDENTIALS_FILE = WriteOk \<and>
             files (snd (snd (save_credentials L username password u w))) TOLINO_CREDENTIALS_FILE
               = Some (fernet_encrypt L k r plain) \<and>
             credentials (fst (snd (save_credentials L username password u w)))
               = cred_dict username password"
    then show "fst (save_credentials L username password u w)"
      using save_credentials_succeeds_iff [OF ks] g by auto
  qed
next
  fix e
  assume "fst (save_credentials_body L username password u w) = Inl e"
  then show "\<not> fst (save_credentials L username password u w)"
    and "logged (snd (snd (save_credentials L username password u w))) =
        logged (snd (snd (save_credentials_body L username password u w)))
          @ [ErrorTrace ''Error saving credentials'' e]"
    by (simp_all add: save_credentials_raised logger_error_trace_def)
next
  assume "\<not> fst (save_credentials L username password u w) \<and>
    (\<forall>n. writing w TOLINO_CREDENTIALS_FILE \<noteq> WriteFails n)"
  then show "files (snd (snd (save_credentials L username password u w))) TOLINO_CREDENTIALS_FILE
        = files w TOLINO_CREDENTIALS_FILE"
    using save_credentials_file_kept [of L username password u w] by blast
next
  fix k
  assume "files w ENCRYPTION_KEY_FILE = Some k"
  then show "files (snd (snd (save_credentials L username password u w))) ENCRYPTION_KEY_FILE
               = Some k"
    by (rule save_credentials_key_file_kept)
qed

theorem save_credentials_outcome_witness:
  "\<not> fst (save_credentials toy_library ''reader'' ''pw''
      \<lparr>credentials = PDict [], encryption_key = Some [7]\<rparr>
      (plain_world (Some [7]) (Some [7, 1, 2, 3])\<lparr>writing := (\<lambda>p. OpenFails)\<rparr>)) \<and>
   files (snd (snd (save_credentials toy_library ''reader'' ''pw''
      \<lparr>credentials = PDict [], encryption_key = Some [7]\<rparr>
      (plain_world (Some [7]) (Some [7, 1, 2, 3])\<lparr>writing := (\<lambda>p. OpenFails)\<rparr>))))
      TOLINO_CREDENTIALS_FILE = Some [7, 1, 2, 3] \<and>
   files (snd (snd (save_credentials toy_library ''reader'' ''pw''
      \<lparr>credentials = PDict [], encryption_key = Some [7]\<rparr>
      (plain_world (Some [7]) (Some [7, 1, 2, 3])\<lparr>writing := (\<lambda>p. OpenFails)\<rparr>))))
      ENCRYPTION_KEY_FILE = Some [7]"
proof -
  let ?u = "\<lparr>credentials = PDict [], encryption_key = Some [7]\<rparr>"
  let ?w = "plain_world (Some [7]) (Some [7, 1, 2, 3])\<lparr>writing := (\<lambda>p. OpenFails)\<rparr>"
  note t = save_credentials_outcome
    [where u = ?u and L = toy_library and w = ?w and username = "''reader''"
       and password = "''pw''"]
  have a: "\<not> fst (save_credentials toy_library ''reader'' ''pw'' ?u ?w)"
    by (simp add: save_credentials_def save_credentials_body_def model_defs plain_world_def
          toy_library_def cred_dict_def)
  have b: "\<forall>n. writing ?w TOLINO_CREDENTIALS_FILE \<noteq> WriteFails n" by simp
  have c: "files ?w TOLINO_CREDENTIALS_FILE = Some [7, 1, 2, 3]"
    and d: "files ?w ENCRYPTION_KEY_FILE = Some [7]"
    by (simp_all add: plain_world_def)
  have f: "files (snd (snd (save_credentials toy_library ''reader'' ''pw'' ?u ?w)))
             TOLINO_CREDENTIALS_FILE = Some [7, 1, 2, 3]"
    using t [THEN conjunct2, THEN conjunct2, THEN conjunct1] a b c by metis
  have g: "files (snd (snd (save_credentials toy_library ''reader'' ''pw'' ?u ?w)))
             ENCRYPTION_KEY_FILE = Some [7]"
    using t [THEN conjunct2, THEN conjunct2, THEN conjunct2] d by blast
  show ?thesis using a f g by blast
qed

text \<open>
  The claim C3 as stated, with the prior on-disk state intact after every failure, fails
  when the write fails after \<open>open(path, 'wb')\<close> has truncated the file: the call returns
  \<open>False\<close> and the credentials saved before are gone.
\<close>

theorem save_credentials_truncates_counterexample:
  "\<not> fst (save_credentials toy_library ''reader'' ''pw''
      \<lparr>credentials = PDict [], encryption_key = Some [7]\<rparr>
      (plain_world (Some [7]) (Some [7, 1, 2, 3])\<lparr>writing := (\<lambda>p. WriteFails 0)\<rparr>)) \<and>
   files (plain_world (Some [7]) (Some [7, 1, 2, 3])\<lparr>writing := (\<lambda>p. WriteFails 0)\<rparr>)
      TOLINO_CREDENTIALS_FILE = Some [7, 1, 2, 3] \<and>
   files (snd (snd (save_credentials toy_library ''reader'' ''pw''
      \<lparr>credentials = PDict [], encryption_key = Some [7]\<rparr>
      (plain_world (Some [7]) (Some [7, 1, 2, 3])\<lparr>writing := (\<lambda>p. WriteFails 0)\<rparr>))))
      TOLINO_CREDENTIALS_FILE = Some []"
  by (simp add: save_credentials_def save_credentials_body_def model_defs plain_world_def
        toy_library_def cred_dict_def)

text \<open>
  C5, as the code has it. \<open>has_credentials\<close> is \<open>False\<close> on the empty record: on a
  fresh object before anything is loaded, after construction when there is no credentials
  file, and after construction when no key is available or the load raised. It is \<open>True\<close>
  right after a \<open>save_credentials\<close> call that returned \<open>True\<close>, provided the user name
  and the password are not empty.
\<close>

theorem has_credentials_presence:
  "(credentials u = PDict [] \<longrightarrow> has_credentials u = Inr False) \<and>
   (files w TOLINO_CREDENTIALS_FILE = None \<longrightarrow> has_credentials (fst (init L w)) = Inr False) \<and>
   (\<not> key_truthy (encryption_key
        (fst (load_encryption_key L \<lparr>credentials = PDict [], encryption_key = None\<rparr> w))) \<or>
    (\<exists>e. fst (load_credentials_body L
        (fst (load_encryption_key L \<lparr>credentials = PDict [], encryption_key = None\<rparr> w))
        (snd (load_encryption_key L \<lparr>credentials = PDict [], encryption_key = None\<rparr> w)))
      = Inl e) \<longrightarrow>
      has_credentials (fst (init L w)) = Inr False) \<and>
   (username \<noteq> [] \<and> password \<noteq> [] \<and> fst (save_credentials L username password u w) \<longrightarrow>
      has_credentials (fst (snd (save_credentials L username password u w))) = Inr True)"
proof (intro conjI impI)
  assume "credentials u = PDict []"
  then show "has_credentials u = Inr False" by (rule has_credentials_empty)
next
  assume "files w TOLINO_CREDENTIALS_FILE = None"
  then have "\<not> path_exists
      (snd (load_encryption_key L \<lparr>credentials = PDict [], encryption_key = None\<rparr> w))
      TOLINO_CREDENTIALS_FILE"
    by (simp add: path_exists_def load_encryption_key_frame)
  then show "has_credentials (fst (init L w)) = Inr False"
    using init_not_loaded [of L w] has_credentials_empty by blast
next
  assume "\<not> key_truthy (encryption_key
        (fst (load_encryption_key L \<lparr>credentials = PDict [], encryption_key = None\<rparr> w))) \<or>
    (\<exists>e. fst (load_credentials_body L
        (fst (load_encryption_key L \<lparr>credentials = PDict [], encryption_key = None\<rparr> w))
        (snd (load_encryption_key L \<lparr>credentials = PDict [], encryption_key = None\<rparr> w)))
      = Inl e)"
  then show "has_credentials (fst (init L w)) = Inr False"
    using init_not_loaded [of L w] has_credentials_empty by blast
next
  assume "username \<noteq> [] \<and> password \<noteq> [] \<and> fst (save_credentials L username password u w)"
  then show "has_credentials (fst (snd (save_credentials L username password u w))) = Inr True"
    using has_credentials_cred_dict [OF save_credentials_record [of L username password u w]]
    by simp
qed

theorem has_credentials_presence_witness:
  "files (plain_world None None) TOLINO_CREDENTIALS_FILE = None \<and>
   has_credentials (fst (init toy_library (plain_world None None))) = Inr False \<and>
   ''reader@example.com'' \<noteq> [] \<and> ''Secr3t!'' \<noteq> [] \<and>
   fst (save_credentials toy_library ''reader@example.com'' ''Secr3t!''
          \<lparr>credentials = PDict [], encryption_key = Some [7]\<rparr>
          (plain_world (Some [7]) None)) \<and>
   has_credentials (fst (snd (save_credentials toy_library ''reader@example.com'' ''Secr3t!''
          \<lparr>credentials = PDict [], encryption_key = Some [7]\<rparr>
          (plain_world (Some [7]) None)))) = Inr True"
proof -
  let ?u = "\<lparr>credentials = PDict [], encryption_key = Some [7]\<rparr>"
  note t = has_credentials_presence
     [where u = ?u and w = "plain_world (Some [7]) None" and L = toy_library
        and username = "''reader@example.com''" and password = "''Secr3t!''"]
  have a: "files (plain_world None None) TOLINO_CREDENTIALS_FILE = None"
    by (simp add: plain_world_def)
  have b: "has_credentials (fst (init toy_library (plain_world None None))) = Inr False"
    using has_credentials_presence
      [where w = "plain_world None None" and L = toy_library, THEN conjunct2, THEN conjunct1] a
    by blast
  have n: "''reader@example.com'' \<noteq> [] \<and> ''Secr3t!'' \<noteq> []" by simp
  have s: "fst (save_credentials toy_library ''reader@example.com'' ''Secr3t!'' ?u
             (plain_world (Some [7]) None))"
    by (simp add: save_credentials_def save_credentials_body_def model_defs plain_world_def
          toy_library_def cred_dict_def)
  have h: "has_credentials (fst (snd (save_credentials toy_library ''reader@example.com''
             ''Secr3t!'' ?u (plain_world (Some [7]) None)))) = Inr True"
    using t [THEN conjunct2, THEN conjunct2, THEN conjunct2] n s by blast
  show ?thesis using a b n s h by blast
qed

text \<open>
  The claim C5 as stated, for any successful save, fails for an empty user name: the save
  succeeds and \<open>has_credentials\<close> is \<open>False\<close>.
\<close>

theorem has_credentials_after_empty_save_counterexample:
  "fst (save_credentials toy_library [] ''Secr3t!''
          \<lparr>credentials = PDict [], encryption_key = Some [7]\<rparr>
          (plain_world (Some [7]) None)) \<and>
   has_credentials (fst (snd (save_credentials toy_library [] ''Secr3t!''
          \<lparr>credentials = PDict [], encryption_key = Some [7]\<rparr>
          (plain_world (Some [7]) None)))) = Inr False"
  by (simp add: save_credentials_def save_credentials_body_def model_defs plain_world_def
        toy_library_def cred_dict_def has_credentials_def dict_get_def)


section \<open>Saving, then loading in a fresh process\<close>

lemma toy_fernet_correct: "fernet_correct toy_library"
  by (simp add: fernet_correct_def toy_library_def toy_decrypt_def)

lemma toy_codec: "char_of (unat (word_of_nat (of_char c) :: 8 word)) = c"
  by (simp add: unat_of_nat)

lemma toy_loads_dumps:
  "toy_loads (replicate (length x) (CHR ''1'') @ CHR ''0'' # x @ y) = Inr (cred_dict x y)"
proof -
  let ?t = "replicate (length x) (CHR ''1'') @ CHR ''0'' # x @ y"
  have a: "?t \<noteq> ''[]''" by (cases x) auto
  have b: "takeWhile (\<lambda>c. c = CHR ''1'') ?t = replicate (length x) (CHR ''1'')"
    by (simp add: takeWhile_append2 takeWhile_tail)
  show ?thesis using a by (simp add: toy_loads_def b Let_def)
qed

lemma toy_serialisation_correct: "serialisation_correct toy_library"
  by (auto simp add: serialisation_correct_def toy_library_def cred_dict_def
        toy_loads_dumps [unfolded cred_dict_def] toy_codec comp_def map_idI)

lemma save_credentials_key_persisted:
  assumes "fernet_correct L"
    and "writing w ENCRYPTION_KEY_FILE = WriteOk"
    and "key_truthy (encryption_key u) \<longrightarrow> files w ENCRYPTION_KEY_FILE = encryption_key u"
    and "fst (save_credentials L username password u w)"
  shows "files (snd (snd (save_credentials L username password u w))) ENCRYPTION_KEY_FILE
           = encryption_key (fst (snd (save_credentials L username password u w)))"
proof -
  obtain u1 w1 where ks:
    "(if \<not> key_truthy (encryption_key u) then load_encryption_key L u w else (u, w)) = (u1, w1)"
    by fastforce
  from assms(4) obtain k t plain r rs where
    st: "encryption_key u1 = Some k" "fernet_valid_key L k"
      "json_dumps L (cred_dict username password) = Inr t"
      "str_encode L t = Inr plain" "entropy w1 = r # rs"
      "writing w1 TOLINO_CREDENTIALS_FILE = WriteOk"
    using save_credentials_succeeds_iff [OF ks] by blast
  note after = save_credentials_success_state [OF ks st]
  have k: "k \<noteq> []" using assms(1) st(2) by (simp add: fernet_correct_def)
  have "files w1 ENCRYPTION_KEY_FILE = Some k"
  proof (cases "key_truthy (encryption_key u)")
    case True
    then show ?thesis using ks assms(3) st(1) by simp
  next
    case False
    then have "load_encryption_key L u w = (u1, w1)" using ks by simp
    then show ?thesis
      using st(1) assms(2) False k
      by (auto simp: load_encryption_key_def load_encryption_key_body_def model_defs Let_def
            split: sum.splits prod.splits option.splits write_outcome.splits list.splits
              if_splits)
  qed
  then show ?thesis using after by simp
qed

text \<open>
  C1. Let \<open>save_credentials username password\<close> return \<open>True\<close>, and let a fresh
  process be constructed on the same two files: the key file holds the key the save used,
  and both files can be read. Then the record loaded at construction is
  \<open>{"username": username, "password": password}\<close>. This holds for all strings, the
  non-empty ones among them, and for every library that is correct in the sense above.
  The lemma \<open>save_credentials_key_persisted\<close> shows when the key file does hold the key
  of a successful save: the key in memory, if any, came from the file and a key generated
  by the call could be written.
\<close>

theorem save_then_load_round_trip:
  assumes "fernet_correct L" and "serialisation_correct L"
    and saved: "fst (save_credentials L username password u w)"
    and same_key: "files (snd (snd (save_credentials L username password u w)))
                     ENCRYPTION_KEY_FILE
                   = encryption_key (fst (snd (save_credentials L username password u w)))"
    and same_files: "files w' = files (snd (snd (save_credentials L username password u w)))"
    and rk: "readable w' ENCRYPTION_KEY_FILE"
    and rc: "readable w' TOLINO_CREDENTIALS_FILE"
  shows "credentials (fst (init L w')) = cred_dict username password"
proof -
  obtain u1 w1 where ks:
    "(if \<not> key_truthy (encryption_key u) then load_encryption_key L u w else (u, w)) = (u1, w1)"
    by fastforce
  from saved obtain k t plain r rs where
    st: "encryption_key u1 = Some k" "fernet_valid_key L k"
      "json_dumps L (cred_dict username password) = Inr t"
      "str_encode L t = Inr plain" "entropy w1 = r # rs"
      "writing w1 TOLINO_CREDENTIALS_FILE = WriteOk"
    using save_credentials_succeeds_iff [OF ks] by blast
  note after = save_credentials_success_state [OF ks st]
  have key: "files w' ENCRYPTION_KEY_FILE = Some k"
    using same_files same_key after(2) by simp
  have cred: "files w' TOLINO_CREDENTIALS_FILE = Some (fernet_encrypt L k r plain)"
    using same_files after(1) by simp
  have k: "k \<noteq> []" and dec: "fernet_decrypt L k (fernet_encrypt L k r plain) = Inr plain"
    using \<open>fernet_correct L\<close> st(2) by (auto simp: fernet_correct_def)
  have inv: "bytes_decode L plain = Inr t" "json_loads L t = Inr (cred_dict username password)"
    using \<open>serialisation_correct L\<close> st(3,4) by (auto simp: serialisation_correct_def)
  have "load_encryption_key L \<lparr>credentials = PDict [], encryption_key = None\<rparr> w'
          = (\<lparr>credentials = PDict [], encryption_key = Some k\<rparr>, w')"
    using load_encryption_key_existing [OF key rk] by simp
  then have "init L w'
          = load_credentials L \<lparr>credentials = PDict [], encryption_key = Some k\<rparr> w'"
    by (simp add: init_unfold)
  then show ?thesis
    using key cred k dec inv rc st(2)
    by (simp add: load_credentials_def load_credentials_body_def model_defs)
qed

theorem save_then_load_round_trip_witness:
  "fst (save_credentials toy_library ''reader@example.com'' ''Secr3t!''
          (fst (init toy_library (plain_world None None)))
          (snd (init toy_library (plain_world None None)))) \<and>
   credentials (fst (init toy_library
      (snd (snd (save_credentials toy_library ''reader@example.com'' ''Secr3t!''
          (fst (init toy_library (plain_world None None)))
          (snd (init toy_library (plain_world None None))))))))
     = cred_dict ''reader@example.com'' ''Secr3t!''"
proof -
  let ?u = "fst (init toy_library (plain_world None None))"
  let ?w = "snd (init toy_library (plain_world None None))"
  let ?r = "save_credentials toy_library ''reader@example.com'' ''Secr3t!'' ?u ?w"
  have i: "init toy_library (plain_world None None) =
             (\<lparr>credentials = PDict [], encryption_key = Some [7]\<rparr>,
              \<lparr>files = (\<lambda>p. case p of ENCRYPTION_KEY_FILE \<Rightarrow> None
                                    | TOLINO_CREDENTIALS_FILE \<Rightarrow> None)
                         (ENCRYPTION_KEY_FILE \<mapsto> [7]),
               readable = (\<lambda>p. True), writing = (\<lambda>p. WriteOk), entropy = [[9]],
               logged = [Info ''Generated new encryption key'']\<rparr>)"
    by (simp add: init_def load_encryption_key_def load_encryption_key_body_def
          load_credentials_def load_credentials_body_def model_defs plain_world_def
          toy_library_def)
  have s: "fst ?r"
    unfolding i
    by (simp add: save_credentials_def save_credentials_body_def model_defs
          toy_library_def cred_dict_def)
  have k: "files (snd (snd ?r)) ENCRYPTION_KEY_FILE = encryption_key (fst (snd ?r))"
    unfolding i
    by (simp add: save_credentials_def save_credentials_body_def model_defs
          toy_library_def cred_dict_def)
  have rd: "readable (snd (snd ?r)) ENCRYPTION_KEY_FILE"
       "readable (snd (snd ?r)) TOLINO_CREDENTIALS_FILE"
    unfolding i
    by (simp_all add: save_credentials_def save_credentials_body_def model_defs
          toy_library_def cred_dict_def)
  show ?thesis
    using s save_then_load_round_trip
      [OF toy_fernet_correct toy_serialisation_correct s k refl rd]
    by simp
qed

section \<open>Exceptions reaching the caller\<close>

text \<open>
  C7. \<open>_load_encryption_key\<close>, \<open>_load_credentials\<close> and \<open>save_credentials\<close> wrap their
  bodies in \<open>try ... except Exception\<close> and return normally whatever the body did.
  \<open>has_credentials\<close> has no handler, and \<open>_load_credentials\<close> stores whatever
  \<open>json.loads\<close> returns without checking that it is a \<open>dict\<close>. With a key file holding
  the key \<open>[7]\<close> and a credentials file that decrypts under it to the JSON text \<open>[]\<close>,
  construction succeeds and leaves a list in \<open>_credentials\<close>; \<open>has_credentials\<close> then
  raises \<open>AttributeError\<close>.
\<close>

theorem has_credentials_raises_on_list:
  "has_credentials (fst (init toy_library (plain_world (Some [7]) (Some [7, 91, 93]))))
     = Inl AttributeError"
  by code_simp

section \<open>The boolean settings\<close>

lemma lower_char_other:
  assumes "\<not> ((65 \<le> (of_char c :: nat) \<and> (of_char c :: nat) \<le> 90) \<or>
      (192 \<le> (of_char c :: nat) \<and> (of_char c :: nat) \<le> 222 \<and> (of_char c :: nat) \<noteq> 215))"
  shows "lower_char c = c"
  unfolding lower_char_def Let_def using assms by (simp only: if_False)

lemma lower_char_capital:
  assumes "(65 \<le> (of_char c :: nat) \<and> (of_char c :: nat) \<le> 90) \<or>
      (192 \<le> (of_char c :: nat) \<and> (of_char c :: nat) \<le> 222 \<and> (of_char c :: nat) \<noteq> 215)"
  shows "lower_char c = char_of ((of_char c :: nat) + 32)"
    and "(of_char (lower_char c) :: nat) = of_char c + 32"
proof -
  show a: "lower_char c = char_of ((of_char c :: nat) + 32)"
    unfolding lower_char_def Let_def using assms by (simp only: if_True)
  have "(of_char c :: nat) + 32 < 256" using assms by arith
  then show "(of_char (lower_char c) :: nat) = of_char c + 32"
    unfolding a by simp
qed

lemma lower_char_preimage:
  assumes "97 \<le> (of_char d :: nat)" and "(of_char d :: nat) \<le> 122"
  shows "lower_char c = d \<longleftrightarrow> c = d \<or> (of_char c :: nat) + 32 = of_char d"
proof (cases "(65 \<le> (of_char c :: nat) \<and> (of_char c :: nat) \<le> 90) \<or>
      (192 \<le> (of_char c :: nat) \<and> (of_char c :: nat) \<le> 222 \<and> (of_char c :: nat) \<noteq> 215)")
  case True
  have "lower_char c = d \<longleftrightarrow> (of_char (lower_char c) :: nat) = of_char d" by simp
  also have "\<dots> \<longleftrightarrow> (of_char c :: nat) + 32 = of_char d"
    using lower_char_capital(2) [OF True] by simp
  finally have "lower_char c = d \<longleftrightarrow> (of_char c :: nat) + 32 = of_char d" .
  moreover have "c \<noteq> d" using True assms by auto
  ultimately show ?thesis by simp
next
  case False
  then have "lower_char c = c" by (rule lower_char_other)
  moreover have "(of_char c :: nat) + 32 \<noteq> of_char d" using False assms by arith
  ultimately show ?thesis by simp
qed

lemma lower_char_eq_letter:
  assumes "97 \<le> (of_char d :: nat)" and "(of_char d :: nat) \<le> 122"
    and "(of_char D :: nat) + 32 = of_char d"
  shows "lower_char c = d \<longleftrightarrow> c = d \<or> c = D"
proof -
  have "(of_char c :: nat) + 32 = of_char d \<longleftrightarrow> (of_char c :: nat) = of_char D"
    using assms(3) by arith
  also have "\<dots> \<longleftrightarrow> c = D" by simp
  finally show ?thesis using lower_char_preimage [OF assms(1,2), of c] by simp
qed

lemma lower_char_eq_digit:
  assumes "(of_char d :: nat) < 65"
  shows "lower_char c = d \<longleftrightarrow> c = d"
proof (cases "(65 \<le> (of_char c :: nat) \<and> (of_char c :: nat) \<le> 90) \<or>
      (192 \<le> (of_char c :: nat) \<and> (of_char c :: nat) \<le> 222 \<and> (of_char c :: nat) \<noteq> 215)")
  case True
  have "(of_char (lower_char c) :: nat) \<noteq> of_char d"
    using lower_char_capital(2) [OF True] True assms by arith
  then have "lower_char c \<noteq> d" by auto
  moreover have "c \<noteq> d" using True assms by auto
  ultimately show ?thesis by simp
next
  case False
  then show ?thesis by (simp add: lower_char_other)
qed

lemma lower_char_letters:
  "lower_char c = CHR ''t'' \<longleftrightarrow> c = CHR ''t'' \<or> c = CHR ''T''"
  "lower_char c = CHR ''r'' \<longleftrightarrow> c = CHR ''r'' \<or> c = CHR ''R''"
  "lower_char c = CHR ''u'' \<longleftrightarrow> c = CHR ''u'' \<or> c = CHR ''U''"
  "lower_char c = CHR ''e'' \<longleftrightarrow> c = CHR ''e'' \<or> c = CHR ''E''"
  "lower_char c = CHR ''y'' \<longleftrightarrow> c = CHR ''y'' \<or> c = CHR ''Y''"
  "lower_char c = CHR ''s'' \<longleftrightarrow> c = CHR ''s'' \<or> c = CHR ''S''"
  "lower_char c = CHR ''1'' \<longleftrightarrow> c = CHR ''1''"
  by (rule lower_char_eq_letter, simp, simp, simp)+
     (rule lower_char_eq_digit, simp)

lemma lower_eq_Nil: "lower s = [] \<longleftrightarrow> s = []"
  by (simp add: lower_def)

lemma lower_eq_Cons:
  "lower s = c # cs \<longleftrightarrow> (\<exists>a s'. s = a # s' \<and> lower_char a = c \<and> lower s' = cs)"
  by (cases s) (auto simp: lower_def)

lemma lower_eq_true:
  "lower s = ''true'' \<longleftrightarrow>
     (\<exists>a b c d. s = [a, b, c, d] \<and> (a = CHR ''t'' \<or> a = CHR ''T'') \<and>
        (b = CHR ''r'' \<or> b = CHR ''R'') \<and> (c = CHR ''u'' \<or> c = CHR ''U'') \<and>
        (d = CHR ''e'' \<or> d = CHR ''E''))"
proof -
  have "lower s = ''true'' \<longleftrightarrow>
     (\<exists>a b c d. s = [a, b, c, d] \<and> lower_char a = CHR ''t'' \<and> lower_char b = CHR ''r'' \<and>
        lower_char c = CHR ''u'' \<and> lower_char d = CHR ''e'')"
    by (auto simp: lower_eq_Cons lower_eq_Nil)
  then show ?thesis by (simp only: lower_char_letters)
qed

lemma lower_eq_yes:
  "lower s = ''yes'' \<longleftrightarrow>
     (\<exists>a b c. s = [a, b, c] \<and> (a = CHR ''y'' \<or> a = CHR ''Y'') \<and>
        (b = CHR ''e'' \<or> b = CHR ''E'') \<and> (c = CHR ''s'' \<or> c = CHR ''S''))"
proof -
  have "lower s = ''yes'' \<longleftrightarrow>
     (\<exists>a b c. s = [a, b, c] \<and> lower_char a = CHR ''y'' \<and> lower_char b = CHR ''e'' \<and>
        lower_char c = CHR ''s'')"
    by (auto simp: lower_eq_Cons lower_eq_Nil)
  then show ?thesis by (simp only: lower_char_letters)
qed

lemma lower_eq_one: "lower s = ''1'' \<longleftrightarrow> s = ''1''"
proof -
  have "lower s = ''1'' \<longleftrightarrow> (\<exists>a. s = [a] \<and> lower_char a = CHR ''1'')"
    by (auto simp: lower_eq_Cons lower_eq_Nil)
  then show ?thesis by (simp only: lower_char_letters) simp
qed

lemma lower_eq_y: "lower s = ''y'' \<longleftrightarrow> s = ''y'' \<or> s = ''Y''"
proof -
  have "lower s = ''y'' \<longleftrightarrow> (\<exists>a. s = [a] \<and> lower_char a = CHR ''y'')"
    by (auto simp: lower_eq_Cons lower_eq_Nil)
  then show ?thesis by (simp only: lower_char_letters) auto
qed

text \<open>
  The strings that \<open>string_to_bool\<close> accepts, spelled out: the four words in any mix of
  upper and lower case ASCII letters, and nothing else.
\<close>

lemma string_to_bool_spellings:
  "string_to_bool s \<longleftrightarrow>
     (\<exists>a b c d. s = [a, b, c, d] \<and> (a = CHR ''t'' \<or> a = CHR ''T'') \<and>
        (b = CHR ''r'' \<or> b = CHR ''R'') \<and> (c = CHR ''u'' \<or> c = CHR ''U'') \<and>
        (d = CHR ''e'' \<or> d = CHR ''E'')) \<or>
     (\<exists>a b c. s = [a, b, c] \<and> (a = CHR ''y'' \<or> a = CHR ''Y'') \<and>
        (b = CHR ''e'' \<or> b = CHR ''E'') \<and> (c = CHR ''s'' \<or> c = CHR ''S'')) \<or>
     s = ''1'' \<or> s = ''y'' \<or> s = ''Y''"
proof -
  have "string_to_bool s \<longleftrightarrow>
          lower s = ''true'' \<or> lower s = ''yes'' \<or> lower s = ''1'' \<or> lower s = ''y''"
    by (simp add: string_to_bool_def)
  then show ?thesis
    by (simp only: lower_eq_true lower_eq_yes lower_eq_one lower_eq_y)
qed

text \<open>
  C10. \<open>string_to_bool\<close> returns \<open>True\<close> exactly when the lowercased input is one of
  \<open>"true"\<close>, \<open>"yes"\<close>, \<open>"1"\<close>, \<open>"y"\<close>, and \<open>False\<close> for every other string:
  \<open>"TRUE"\<close> and \<open>"Y"\<close> are true, \<open>"on"\<close> and \<open>"enabled"\<close> are false.
\<close>

theorem string_to_bool_true_values:
  "string_to_bool s =
     (lower s = ''true'' \<or> lower s = ''yes'' \<or> lower s = ''1'' \<or> lower s = ''y'') \<and>
   string_to_bool ''TRUE'' \<and> string_to_bool ''Y'' \<and>
   \<not> string_to_bool ''on'' \<and> \<not> string_to_bool ''enabled''"
proof -
  have a: "string_to_bool ''TRUE''" by (simp add: string_to_bool_spellings)
  have b: "string_to_bool ''Y''" by (simp add: string_to_bool_spellings)
  have c: "\<not> string_to_bool ''on''" by (simp add: string_to_bool_spellings)
  have d: "\<not> string_to_bool ''enabled''" by (simp add: string_to_bool_spellings)
  have e: "string_to_bool s =
     (lower s = ''true'' \<or> lower s = ''yes'' \<or> lower s = ''1'' \<or> lower s = ''y'')"
    by (simp add: string_to_bool_def)
  show ?thesis using a b c d e by blast
qed

end
